theory Spec2Isabelle
  imports Main "HOL-Library.Word"
begin

section \<open>Strings\<close>

text \<open>
  A JavaScript string is a sequence of UTF-16 code units. The regular expression of the
  keyword normaliser has no \<open>u\<close> flag and \<open>trim\<close>, \<open>split\<close> and \<open>length\<close> all work on
  code units, so a string is modelled as a list of 16-bit words. \<open>js\<close> turns an ASCII
  literal into such a string.
\<close>

type_synonym code_unit = "16 word"
type_synonym jsstring = "code_unit list"

definition js :: "string \<Rightarrow> jsstring" where
  "js s = map of_char s"

text \<open>\<open>a || b\<close> on strings: the empty string is the only falsy string.\<close>

definition or_else :: "jsstring \<Rightarrow> jsstring \<Rightarrow> jsstring" where
  "or_else a b = (if a = [] then b else a)"

text \<open>\<open>!v\<close> where \<open>v\<close> is a string or \<open>undefined\<close>.\<close>

definition absent :: "jsstring option \<Rightarrow> bool" where
  "absent v \<longleftrightarrow> (case v of None \<Rightarrow> True | Some a \<Rightarrow> a = [])"

text \<open>\<open>v || b\<close> where \<open>v\<close> is a property that may be missing (\<open>undefined\<close>).\<close>

definition or_else_opt :: "jsstring option \<Rightarrow> jsstring \<Rightarrow> jsstring" where
  "or_else_opt v b = (case v of None \<Rightarrow> b | Some a \<Rightarrow> or_else a b)"


section \<open>Data model (lines 16-34 of +page.svelte)\<close>

text \<open>
  \<open>Record<string, T>\<close> is an association list in the order in which \<open>Object.keys\<close>,
  \<open>Object.values\<close> and \<open>Object.entries\<close> enumerate the object. Percentages are JavaScript
  numbers; the page never computes with them, so their type is a parameter \<open>'n\<close>.

  The result is whatever the service sent, so the value of \<open>common_keywords\<close> need not be
  what the interface declares. It is an array of strings, or it is any other value: the
  property is missing or \<open>null\<close>, is not an array, or is an array with an element that is
  not a string. On a value of the second kind lines 86-88 throw a TypeError, and
  \<open>NotKeywords\<close> carries the message of that error. An aspect is taken to be an object
  with the other two properties as declared.
\<close>

datatype keywords_value = Keywords "jsstring list" | NotKeywords jsstring

record 'n SentimentData =
  sentiment :: "(jsstring \<times> 'n) list"
  insight :: jsstring
  common_keywords :: keywords_value

record 'n AnalysisResult =
  insights :: "(jsstring \<times> 'n SentimentData) list"

datatype chart_type = Pie | Bar | Doughnut | PolarArea

fun chart_type_name :: "chart_type \<Rightarrow> jsstring" where
  "chart_type_name Pie = js ''pie''"
| "chart_type_name Bar = js ''bar''"
| "chart_type_name Doughnut = js ''doughnut''"
| "chart_type_name PolarArea = js ''polarArea''"


section \<open>Keyword normalisation (lines 86-88)\<close>

text \<open>The character class \<open>[a-zA-Z]\<close>.\<close>

definition is_ascii_letter :: "code_unit \<Rightarrow> bool" where
  "is_ascii_letter c \<longleftrightarrow> (0x61 \<le> c \<and> c \<le> 0x7A) \<or> (0x41 \<le> c \<and> c \<le> 0x5A)"

text \<open>\<open>keyword.replace(/[^a-zA-Z]/g, '')\<close>: every code unit outside the class is removed.\<close>

definition strip_non_alpha :: "jsstring \<Rightarrow> jsstring" where
  "strip_non_alpha keyword = filter is_ascii_letter keyword"

text \<open>\<open>common_keywords.map(...).filter(keyword => keyword.length > 0)\<close>.\<close>

definition normalizeKeywords :: "jsstring list \<Rightarrow> jsstring list" where
  "normalizeKeywords ks = filter (\<lambda>keyword. length keyword > 0) (map strip_non_alpha ks)"

text \<open>
  The body of the \<open>forEach\<close> callback: the keyword list of one aspect is replaced, or the
  call throws when the value is not an array of strings.
\<close>

definition forEach_callback :: "'n SentimentData \<Rightarrow> jsstring + 'n SentimentData" where
  "forEach_callback d =
     (case common_keywords d of
        Keywords ks \<Rightarrow> Inr (d\<lparr>common_keywords := Keywords (normalizeKeywords ks)\<rparr>)
      | NotKeywords message \<Rightarrow> Inl message)"

text \<open>
  \<open>Object.values(result.insights).forEach(...)\<close>: the callback runs on one aspect after the
  other and changes it in place; a throw ends the loop. The function gives the value of
  \<open>insights\<close> after each completed call, and the message of the thrown error if there is
  one. \<open>visited\<close> holds the aspects already rewritten.
\<close>

fun forEach_insights ::
  "(jsstring \<times> 'n SentimentData) list \<Rightarrow> (jsstring \<times> 'n SentimentData) list
    \<Rightarrow> (jsstring \<times> 'n SentimentData) list list \<times> jsstring option" where
  "forEach_insights visited [] = ([], None)"
| "forEach_insights visited ((k, d) # rest) =
     (case forEach_callback d of
        Inl message \<Rightarrow> ([], Some message)
      | Inr d' \<Rightarrow>
          (case forEach_insights (visited @ [(k, d')]) rest of
             (later, thrown) \<Rightarrow> ((visited @ (k, d') # rest) # later, thrown)))"

text \<open>
  A result has the declared shape when the keywords of every aspect are an array of
  strings. \<open>normalize_insights\<close> is what the loop leaves of such a result.
\<close>

definition has_keywords :: "jsstring \<times> 'n SentimentData \<Rightarrow> bool" where
  "has_keywords e = (case common_keywords (snd e) of Keywords _ \<Rightarrow> True | NotKeywords _ \<Rightarrow> False)"

definition well_shaped :: "'n AnalysisResult \<Rightarrow> bool" where
  "well_shaped r = list_all has_keywords (insights r)"

definition normalize_data :: "'n SentimentData \<Rightarrow> 'n SentimentData" where
  "normalize_data d = (case forEach_callback d of Inl _ \<Rightarrow> d | Inr d' \<Rightarrow> d')"

definition normalize_insights :: "(jsstring \<times> 'n SentimentData) list \<Rightarrow> (jsstring \<times> 'n SentimentData) list" where
  "normalize_insights ins = map (\<lambda>(k, d). (k, normalize_data d)) ins"

subsection \<open>The normaliser as the specification words it\<close>

text \<open>
  The specification's algorithm, written independently of the code: the ASCII letters are
  listed one by one, a keyword is cleaned letter by letter, and the list is walked from
  the front, dropping each keyword whose cleaned form is empty.
\<close>

definition ascii_letters :: "code_unit list" where
  "ascii_letters = js ''abcdefghijklmnopqrstuvwxyzABCDEFGHIJKLMNOPQRSTUVWXYZ''"

fun strip_spec :: "jsstring \<Rightarrow> jsstring" where
  "strip_spec [] = []"
| "strip_spec (c # cs) = (if c \<in> set ascii_letters then c # strip_spec cs else strip_spec cs)"

fun normalize_spec :: "jsstring list \<Rightarrow> jsstring list" where
  "normalize_spec [] = []"
| "normalize_spec (k # ks) =
     (if strip_spec k = [] then normalize_spec ks else strip_spec k # normalize_spec ks)"


section \<open>The review batch (lines 57-60)\<close>

text \<open>\<open>text.split('\n')\<close>: the pieces between line feeds; the empty string gives one empty piece.\<close>

fun split_newline :: "jsstring \<Rightarrow> jsstring list" where
  "split_newline [] = [[]]"
| "split_newline (c # cs) =
     (if c = 0x0A then [] # split_newline cs
      else (case split_newline cs of [] \<Rightarrow> [[c]] | l # ls \<Rightarrow> (c # l) # ls))"

text \<open>
  The code units that \<open>String.prototype.trim\<close> removes: ECMAScript's WhiteSpace and
  LineTerminator productions (tab, line feed, vertical tab, form feed, carriage return,
  space, no-break space, the other space separators, line and paragraph separator, and
  the byte order mark).
\<close>

definition white_space_units :: "code_unit list" where
  "white_space_units =
     [0x0009, 0x000A, 0x000B, 0x000C, 0x000D, 0x0020, 0x00A0, 0x1680,
      0x2000, 0x2001, 0x2002, 0x2003, 0x2004, 0x2005, 0x2006, 0x2007, 0x2008, 0x2009, 0x200A,
      0x2028, 0x2029, 0x202F, 0x205F, 0x3000, 0xFEFF]"

definition isWhiteSpace :: "code_unit \<Rightarrow> bool" where
  "isWhiteSpace c \<longleftrightarrow> c \<in> set white_space_units"

definition trim :: "jsstring \<Rightarrow> jsstring" where
  "trim r = rev (dropWhile isWhiteSpace (rev (dropWhile isWhiteSpace r)))"

text \<open>\<open>reviewsText.split('\n').map((r) => r.trim()).filter((r) => r)\<close>.\<close>

definition reviews_of :: "jsstring \<Rightarrow> jsstring list" where
  "reviews_of text = filter (\<lambda>r. r \<noteq> []) (map trim (split_newline text))"


section \<open>What the service answers\<close>

text \<open>
  \<open>response.json()\<close> either throws an error with a message or gives the parsed body.

  The body of a failure response is \<open>null\<close>, and then reading \<open>err.error\<close> in line 79
  throws a TypeError whose message \<open>NullBody\<close> carries; or it is any other value, and
  then \<open>Body\<close> holds its \<open>error\<close> property when that is a string, and \<open>None\<close> when the
  property is missing or is a falsy value that is not a string. An \<open>error\<close> property
  that is truthy and not a string is not modelled.

  The body of a success response is \<open>null\<close> or a result as described with the data model.
\<close>

datatype 'a parsed = Throws jsstring | Parsed 'a

datatype error_body = NullBody jsstring | Body "jsstring option"

datatype 'n outcome =
    FetchRejects jsstring
  | ResponseNotOk "error_body parsed"
  | ResponseOk "('n AnalysisResult option) parsed"


section \<open>The chart (lines 123-168)\<close>

text \<open>
  The options object handed to \<open>new Chart\<close>. A callback that formats a number takes the
  number's string form. The colour table lookup of lines 117-121 is not part of the record.
\<close>

record y_axis =
  beginAtZero :: bool
  axis_max :: nat
  ticks_callback :: "jsstring \<Rightarrow> jsstring"

record 'n chart_config =
  ctype :: chart_type
  labels :: "jsstring list"
  dataset_label :: jsstring
  dataset_data :: "'n list"
  responsive :: bool
  maintainAspectRatio :: bool
  legend_position :: jsstring
  tooltip_label :: "jsstring \<Rightarrow> jsstring \<Rightarrow> jsstring"
  title_display :: bool
  title_text :: jsstring
  scales_y :: "y_axis option"

definition bar_axis :: y_axis where
  "bar_axis = \<lparr>beginAtZero = True, axis_max = 100, ticks_callback = (\<lambda>v. v @ js ''%'')\<rparr>"

definition make_config :: "chart_type \<Rightarrow> jsstring \<Rightarrow> jsstring list \<Rightarrow> 'n list \<Rightarrow> 'n chart_config" where
  "make_config t aspect ls ds =
     \<lparr>ctype = t,
      labels = ls,
      dataset_label = js ''Sentiment Distribution'',
      dataset_data = ds,
      responsive = True,
      maintainAspectRatio = False,
      legend_position = (if t = Bar then js ''top'' else js ''right''),
      tooltip_label = (\<lambda>l raw. l @ js '': '' @ raw @ js ''%''),
      title_display = True,
      title_text = aspect @ js '' Sentiment ('' @ chart_type_name t @ js '')'',
      scales_y = (if t = Bar then Some bar_axis else None)\<rparr>"

text \<open>
  What the chart library is asked to do, in order: \<open>chartInstance.destroy()\<close> on a chart,
  and \<open>new Chart(canvas, config)\<close>, which makes a chart and attaches it to a canvas.
  Charts and canvas elements are named by numbers.
\<close>

datatype 'n chart_event = Destroyed nat | Created nat nat "'n chart_config"


section \<open>The page state (lines 26-34)\<close>

text \<open>
  The first eight fields are the variables of the component. The last four record what
  the page did to the outside: the request bodies sent, the calls to the chart library,
  and the counters that name the next chart and the next canvas element.
\<close>

record 'n page =
  reviewsText :: jsstring
  result :: "'n AnalysisResult option"
  error :: jsstring
  isLoading :: bool
  selectedChartType :: chart_type
  selectedAspect :: "jsstring option"
  canvas :: "nat option"
  chartInstance :: "nat option"
  requests :: "jsstring list list"
  events :: "'n chart_event list"
  nextChart :: nat
  nextCanvas :: nat

definition init :: "'n page" where
  "init = \<lparr>reviewsText = [], result = None, error = [], isLoading = False,
           selectedChartType = Pie, selectedAspect = None, canvas = None,
           chartInstance = None, requests = [], events = [], nextChart = 0, nextCanvas = 0\<rparr>"


section \<open>analyze (lines 52-97)\<close>

text \<open>
  Each function below lists the states after each assignment of one stretch of
  \<open>analyze\<close>, so that a property of every point of a submission can be stated.
\<close>

text \<open>Lines 53-55.\<close>

definition clear_steps :: "'n page \<Rightarrow> 'n page list" where
  "clear_steps s0 =
     (let s1 = s0\<lparr>error := []\<rparr>;
          s2 = s1\<lparr>result := None\<rparr>;
          s3 = s2\<lparr>isLoading := True\<rparr>
      in [s1, s2, s3])"

text \<open>Lines 63-65: the early return on an empty batch.\<close>

definition reject_steps :: "'n page \<Rightarrow> 'n page list" where
  "reject_steps s =
     (let s1 = s\<lparr>error := js ''Please enter at least one review.''\<rparr>;
          s2 = s1\<lparr>isLoading := False\<rparr>
      in [s1, s2])"

text \<open>Lines 69-75: the request is issued with the batch as its body.\<close>

definition send :: "jsstring list \<Rightarrow> 'n page \<Rightarrow> 'n page" where
  "send reviews s = s\<lparr>requests := requests s @ [reviews]\<rparr>"

text \<open>Lines 92-96: \<open>catch\<close> with the thrown error's message, then \<open>finally\<close>.\<close>

definition catch_steps :: "jsstring \<Rightarrow> 'n page \<Rightarrow> 'n page list" where
  "catch_steps message s =
     (let s1 = s\<lparr>error := or_else message (js ''Request failed.'')\<rparr>;
          s2 = s1\<lparr>isLoading := False\<rparr>
      in [s1, s2])"

text \<open>Lines 78-80: a failure response whose body was parsed, then \<open>finally\<close>.\<close>

definition not_ok_steps :: "jsstring option \<Rightarrow> 'n page \<Rightarrow> 'n page list" where
  "not_ok_steps err_error s =
     (let s1 = s\<lparr>error := or_else_opt err_error (js ''Something went wrong.'')\<rparr>;
          s2 = s1\<lparr>isLoading := False\<rparr>
      in [s1, s2])"

text \<open>\<open>Object.keys(insights)[0]\<close>: \<open>undefined\<close> when there is no key.\<close>

definition first_key :: "(jsstring \<times> 'a) list \<Rightarrow> jsstring option" where
  "first_key ins = (case ins of [] \<Rightarrow> None | (k, _) # _ \<Rightarrow> Some k)"

text \<open>
  Lines 83-91, then \<open>finally\<close>. The parsed body is stored first. When it is \<open>null\<close> the
  guard \<open>result?.insights\<close> skips the loop and nothing is selected. Otherwise the
  \<open>forEach\<close> loop rewrites the keyword list of one aspect after the other. When a call
  throws, control leaves the \<open>try\<close> block with the result stored and the aspects visited
  so far rewritten: the \<open>catch\<close> block and \<open>finally\<close> run, and line 91 does not. When
  no call throws, line 91 selects the first aspect.
\<close>

definition ok_steps :: "'n AnalysisResult option \<Rightarrow> 'n page \<Rightarrow> 'n page list" where
  "ok_steps body s =
     (let s1 = s\<lparr>result := body\<rparr>
      in case body of
           None \<Rightarrow>
             (let s3 = s1\<lparr>selectedAspect := None\<rparr>;
                  s4 = s3\<lparr>isLoading := False\<rparr>
              in [s1, s3, s4])
         | Some r \<Rightarrow>
             (case forEach_insights [] (insights r) of
                (snapshots, thrown) \<Rightarrow>
                  (let loop = map (\<lambda>ins. s1\<lparr>result := Some (r\<lparr>insights := ins\<rparr>)\<rparr>) snapshots;
                       s2 = last (s1 # loop)
                   in case thrown of
                        Some message \<Rightarrow> (s1 # loop) @ catch_steps message s2
                      | None \<Rightarrow>
                          (let s3 = s2\<lparr>selectedAspect :=
                                      (case result s2 of
                                         None \<Rightarrow> None
                                       | Some r' \<Rightarrow> first_key (insights r'))\<rparr>;
                               s4 = s3\<lparr>isLoading := False\<rparr>
                           in (s1 # loop) @ [s3, s4]))))"

text \<open>The part of \<open>analyze\<close> that runs once the service has answered.\<close>

fun resume_steps :: "'n outcome \<Rightarrow> 'n page \<Rightarrow> 'n page list" where
  "resume_steps (FetchRejects message) s = catch_steps message s"
| "resume_steps (ResponseNotOk (Throws message)) s = catch_steps message s"
| "resume_steps (ResponseNotOk (Parsed (NullBody message))) s = catch_steps message s"
| "resume_steps (ResponseNotOk (Parsed (Body err_error))) s = not_ok_steps err_error s"
| "resume_steps (ResponseOk (Throws message)) s = catch_steps message s"
| "resume_steps (ResponseOk (Parsed body)) s = ok_steps body s"

text \<open>The part of \<open>analyze\<close> that runs at the click, up to the early return or the request.\<close>

definition submit_steps :: "'n page \<Rightarrow> 'n page list" where
  "submit_steps s0 =
     (let pre = clear_steps s0;
          s3 = last pre;
          reviews = reviews_of (reviewsText s3)
      in if length reviews = 0 then pre @ reject_steps s3 else pre @ [send reviews s3])"

definition analyze_steps :: "'n outcome \<Rightarrow> 'n page \<Rightarrow> 'n page list" where
  "analyze_steps out s0 =
     (let before = submit_steps s0
      in if length (reviews_of (reviewsText s0)) = 0 then before
         else before @ resume_steps out (last before))"

definition analyze :: "'n outcome \<Rightarrow> 'n page \<Rightarrow> 'n page" where
  "analyze out s0 = last (analyze_steps out s0)"


section \<open>The effects and the template\<close>

text \<open>Lines 185-189: the effect that repairs an absent selection.\<close>

definition repair_effect :: "'n page \<Rightarrow> 'n page" where
  "repair_effect s =
     (case result s of
        None \<Rightarrow> s
      | Some r \<Rightarrow>
          if absent (selectedAspect s) then
            s\<lparr>selectedAspect :=
                (case first_key (insights r) of
                   None \<Rightarrow> None
                 | Some k \<Rightarrow> if k = [] then None else Some k)\<rparr>
          else s)"

text \<open>
  Lines 256 and 366: the canvas element lives inside \<open>{#if result}\<close> and is bound to
  \<open>canvas\<close>, so the variable holds a new element when a result appears and \<open>null\<close> when
  there is none.
\<close>

definition bind_canvas :: "'n page \<Rightarrow> 'n page" where
  "bind_canvas s =
     (case result s of
        None \<Rightarrow> s\<lparr>canvas := None\<rparr>
      | Some _ \<Rightarrow>
          (case canvas s of
             None \<Rightarrow> s\<lparr>canvas := Some (nextCanvas s), nextCanvas := Suc (nextCanvas s)\<rparr>
           | Some _ \<Rightarrow> s))"


section \<open>renderChart (lines 106-169)\<close>

datatype js_error = TypeError

text \<open>
  The guard of line 107 returns at once. Reading \<open>.sentiment\<close> of an aspect that the
  result does not have throws before anything is destroyed or created. Otherwise the old
  chart, if any, is destroyed and the new one is made on the canvas.
\<close>

definition renderChart :: "'n page \<Rightarrow> js_error + 'n page" where
  "renderChart s =
     (case result s of
        None \<Rightarrow> Inr s
      | Some r \<Rightarrow>
         (case canvas s of
            None \<Rightarrow> Inr s
          | Some cv \<Rightarrow>
             (case selectedAspect s of
                None \<Rightarrow> Inr s
              | Some aspect \<Rightarrow>
                  if aspect = [] then Inr s
                  else
                    (case map_of (insights r) aspect of
                       None \<Rightarrow> Inl TypeError
                     | Some d \<Rightarrow>
                        (let sentimentData = sentiment d;
                             ls = map fst sentimentData;
                             ds = map snd sentimentData;
                             s1 = (case chartInstance s of
                                     None \<Rightarrow> s
                                   | Some c \<Rightarrow> s\<lparr>events := events s @ [Destroyed c]\<rparr>);
                             c' = nextChart s1
                         in Inr (s1\<lparr>chartInstance := Some c',
                                    events := events s1 @
                                      [Created c' cv (make_config (selectedChartType s1) aspect ls ds)],
                                    nextChart := Suc c'\<rparr>))))))"


section \<open>The page as a transition system\<close>

text \<open>
  The handlers of the template. The text area and the button are disabled while
  \<open>isLoading\<close> (lines 221 and 226); the two menus exist only while a result is shown
  (line 256), and the aspect menu and the aspect cards offer the keys of the current
  result (lines 350 and 373). \<open>Render\<close> is the callback that the effect of lines 179-183
  leaves with \<open>tick()\<close>; it is allowed at any moment, and a call that throws leaves the
  page as it was. A request is in flight exactly while \<open>isLoading\<close> holds, and \<open>Respond\<close>
  is its completion.
\<close>

definition selectChartType :: "chart_type \<Rightarrow> 'n page \<Rightarrow> 'n page" where
  "selectChartType t s = s\<lparr>selectedChartType := t\<rparr>"

definition selectAspect :: "jsstring \<Rightarrow> 'n page \<Rightarrow> 'n page" where
  "selectAspect aspect s = s\<lparr>selectedAspect := Some aspect\<rparr>"

datatype 'n action =
    Input jsstring
  | Submit
  | Respond "'n outcome"
  | ChooseChartType chart_type
  | ChooseAspect jsstring
  | Render

fun act :: "'n action \<Rightarrow> 'n page \<Rightarrow> 'n page" where
  "act (Input t) s = (if isLoading s then s else s\<lparr>reviewsText := t\<rparr>)"
| "act Submit s = (if isLoading s then s else last (submit_steps s))"
| "act (Respond out) s = (if isLoading s then last (resume_steps out s) else s)"
| "act (ChooseChartType t) s = (case result s of None \<Rightarrow> s | Some _ \<Rightarrow> selectChartType t s)"
| "act (ChooseAspect aspect) s =
     (case result s of
        None \<Rightarrow> s
      | Some r \<Rightarrow> if aspect \<in> set (map fst (insights r)) then selectAspect aspect s else s)"
| "act Render s = (case renderChart s of Inl _ \<Rightarrow> s | Inr s' \<Rightarrow> s')"

definition step :: "'n action \<Rightarrow> 'n page \<Rightarrow> 'n page" where
  "step a s = bind_canvas (repair_effect (act a s))"

fun run :: "'n action list \<Rightarrow> 'n page \<Rightarrow> 'n page" where
  "run [] s = s"
| "run (a # as) s = run as (step a s)"

text \<open>
  Tearing the view down: the component registers no \<open>onDestroy\<close> callback and none of its
  effects returns a cleanup function (\<open>onMount\<close> is imported in line 2 and never called),
  so no code of the component runs; the canvas element goes away with the view.
\<close>

definition teardown :: "'n page \<Rightarrow> 'n page" where
  "teardown s = s\<lparr>canvas := None\<rparr>"


section \<open>Reading the log of chart calls\<close>

text \<open>The charts attached to a canvas after a log of calls, each with its canvas.\<close>

fun attach :: "'n chart_event \<Rightarrow> (nat \<times> nat) list \<Rightarrow> (nat \<times> nat) list" where
  "attach (Created c cv cfg) L = L @ [(c, cv)]"
| "attach (Destroyed c) L = filter (\<lambda>p. fst p \<noteq> c) L"

definition attached :: "'n chart_event list \<Rightarrow> (nat \<times> nat) list" where
  "attached evs = fold attach evs []"

text \<open>
  \<open>lifecycle_ok cur evs\<close>: starting with the live chart \<open>cur\<close>, the log creates a chart only
  when none is live, and destroys only the live chart. \<open>live_after\<close> is the live chart at
  the end of the log.
\<close>

fun lifecycle_ok :: "nat option \<Rightarrow> 'n chart_event list \<Rightarrow> bool" where
  "lifecycle_ok cur [] = True"
| "lifecycle_ok cur (Created c cv cfg # es) = (cur = None \<and> lifecycle_ok (Some c) es)"
| "lifecycle_ok cur (Destroyed c # es) = (cur = Some c \<and> lifecycle_ok None es)"

fun live_after :: "nat option \<Rightarrow> 'n chart_event list \<Rightarrow> nat option" where
  "live_after cur [] = cur"
| "live_after cur (Created c cv cfg # es) = live_after (Some c) es"
| "live_after cur (Destroyed c # es) = live_after None es"

text \<open>Every destroy in the log is followed at once by a create.\<close>

fun replaced_at_once :: "'n chart_event list \<Rightarrow> bool" where
  "replaced_at_once [] = True"
| "replaced_at_once [Destroyed c] = False"
| "replaced_at_once (Destroyed c # Destroyed c' # es) = False"
| "replaced_at_once (Destroyed c # Created c' cv cfg # es) = replaced_at_once es"
| "replaced_at_once (Created c cv cfg # es) = replaced_at_once es"

text \<open>The selection names an aspect of the result.\<close>

definition valid_selection :: "'n page \<Rightarrow> bool" where
  "valid_selection s =
     (case result s of
        None \<Rightarrow> False
      | Some r \<Rightarrow>
          (case selectedAspect s of
             None \<Rightarrow> False
           | Some aspect \<Rightarrow> aspect \<in> set (map fst (insights r))))"


text \<open>The result and the error message are not both present.\<close>

definition exclusive :: "'n page \<Rightarrow> bool" where
  "exclusive s \<longleftrightarrow> \<not> (result s \<noteq> None \<and> error s \<noteq> [])"


section \<open>The scenarios of the specification as data\<close>

text \<open>
  Scenario 1: two reviews on two lines, and a service answer with the aspects
  \<open>battery\<close> and \<open>screen\<close>; the keyword list of the first aspect is that of scenario 2.
\<close>

definition scenario_text :: jsstring where
  "scenario_text = js ''Great battery life'' @ [0x0A] @ js ''Screen is too dim''"

definition scenario_result :: "int AnalysisResult" where
  "scenario_result =
     \<lparr>insights =
        [(js ''battery'',
          \<lparr>sentiment = [(js ''positive'', 80), (js ''negative'', 20)],
           insight = js ''Lasts long'',
           common_keywords = Keywords [js ''fast!'', js ''2-day'', js '''', js ''Good'']\<rparr>),
         (js ''screen'',
          \<lparr>sentiment = [(js ''negative'', 100)],
           insight = js ''Too dim'',
           common_keywords = Keywords [js ''dim'']\<rparr>)]\<rparr>"

definition scenario_page :: "int page" where
  "scenario_page = init\<lparr>reviewsText := scenario_text\<rparr>"

text \<open>A page whose text area holds spaces, a line feed and a tab.\<close>

definition blank_page :: "int page" where
  "blank_page = init\<lparr>reviewsText := js ''  '' @ [0x0A, 0x09]\<rparr>"


text \<open>A service answer with no aspect, and one whose only aspect has the empty name.\<close>

definition empty_result :: "int AnalysisResult" where
  "empty_result = \<lparr>insights = []\<rparr>"

definition unnamed_result :: "int AnalysisResult" where
  "unnamed_result =
     \<lparr>insights =
        [([], \<lparr>sentiment = [(js ''positive'', 100)], insight = js ''Fine'',
               common_keywords = Keywords []\<rparr>)]\<rparr>"


section \<open>Statements of the specification as predicates\<close>

text \<open>
  Two results have the same aspects in the same order, each with the same sentiment
  mapping and the same insight text.
\<close>

definition same_aspects :: "'n AnalysisResult \<Rightarrow> 'n AnalysisResult \<Rightarrow> bool" where
  "same_aspects r r' \<longleftrightarrow>
     map (\<lambda>(k, d). (k, sentiment d, insight d)) (insights r')
       = map (\<lambda>(k, d). (k, sentiment d, insight d)) (insights r)"

text \<open>
  The error message that the specification gives for a failure response: the body's
  \<open>error\<close> text when one can be read from it, a generic message in every other case.
\<close>

definition spec_rejected_message :: "error_body parsed \<Rightarrow> jsstring" where
  "spec_rejected_message b =
     (case b of
        Parsed (Body (Some m)) \<Rightarrow> if m = [] then js ''Something went wrong.'' else m
      | Parsed (Body None) \<Rightarrow> js ''Something went wrong.''
      | Parsed (NullBody _) \<Rightarrow> js ''Something went wrong.''
      | Throws _ \<Rightarrow> js ''Something went wrong.'')"


text \<open>
  A success body whose first aspect has no \<open>common_keywords\<close> property; the message is the
  one of the TypeError that reading \<open>.map\<close> of \<open>undefined\<close> throws.
\<close>

definition faulty_result :: "int AnalysisResult" where
  "faulty_result =
     \<lparr>insights =
        [(js ''battery'',
          \<lparr>sentiment = [(js ''positive'', 100)], insight = js ''Lasts long'',
           common_keywords = NotKeywords (js ''data.common_keywords is undefined'')\<rparr>)]\<rparr>"

text \<open>An outcome that makes nothing throw after the result is stored.\<close>

definition well_shaped_outcome :: "'n outcome \<Rightarrow> bool" where
  "well_shaped_outcome out =
     (case out of ResponseOk (Parsed (Some r)) \<Rightarrow> well_shaped r | _ \<Rightarrow> True)"

text \<open>
  The log of chart calls is well formed and its live chart is the one that
  \<open>chartInstance\<close> holds.
\<close>

definition chart_inv :: "'n page \<Rightarrow> bool" where
  "chart_inv s \<longleftrightarrow>
     lifecycle_ok None (events s) \<and> replaced_at_once (events s)
     \<and> live_after None (events s) = chartInstance s"

text \<open>
  Scenario 4: the reviews of scenario 1 are typed and submitted, the service answers, the
  chart is drawn, the user picks the bar chart, and the chart is drawn again.
\<close>

definition scenario_shown :: "int page" where
  "scenario_shown =
     run [Input scenario_text, Submit, Respond (ResponseOk (Parsed (Some scenario_result)))] init"

definition scenario_actions :: "int action list" where
  "scenario_actions =
     [Input scenario_text, Submit, Respond (ResponseOk (Parsed (Some scenario_result))),
      Render, ChooseChartType Bar, Render]"


definition scenario_drawn :: "int page" where
  "scenario_drawn = run [Render, ChooseChartType Bar] scenario_shown"


text \<open>The two charts of scenario 4.\<close>

definition pie_config :: "int chart_config" where
  "pie_config = make_config Pie (js ''battery'') [js ''positive'', js ''negative''] [80, 20]"

definition bar_config :: "int chart_config" where
  "bar_config = make_config Bar (js ''battery'') [js ''positive'', js ''negative''] [80, 20]"


section \<open>Keyword normalisation: results\<close>

lemma unat_ascii_letters: "[97..<123] @ [65..<91] = map unat ascii_letters"
  by (simp add: ascii_letters_def js_def upt_rec)

lemma is_ascii_letter_iff: "is_ascii_letter c \<longleftrightarrow> c \<in> set ascii_letters"
proof -
  have "is_ascii_letter c \<longleftrightarrow> (97 \<le> unat c \<and> unat c < 123) \<or> (65 \<le> unat c \<and> unat c < 91)"
    by (auto simp: is_ascii_letter_def word_le_nat_alt)
  also have "\<dots> \<longleftrightarrow> unat c \<in> set ([97..<123] @ [65..<91])"
    by (simp only: set_append set_upt Un_iff atLeastLessThan_iff)
  also have "\<dots> \<longleftrightarrow> unat c \<in> unat ` set ascii_letters"
    by (simp only: unat_ascii_letters set_map)
  also have "\<dots> \<longleftrightarrow> c \<in> set ascii_letters"
    by (auto simp: image_iff dest: word_unat_eq_iff [THEN iffD2])
  finally show ?thesis .
qed

lemma strip_spec_eq: "strip_spec k = strip_non_alpha k"
  by (induction k) (simp_all add: strip_non_alpha_def is_ascii_letter_iff)

lemma normalize_spec_eq: "normalize_spec ks = normalizeKeywords ks"
  by (induction ks) (simp_all add: normalizeKeywords_def strip_spec_eq)

lemma strip_non_alpha_idem: "strip_non_alpha (strip_non_alpha k) = strip_non_alpha k"
  by (simp add: strip_non_alpha_def)

text \<open>
  C6. The normaliser of the code is the normaliser of the specification: each keyword is
  mapped to its ASCII letters in order, a keyword left empty is dropped, the survivors
  keep their order, and equal survivors are all kept. On the example of the
  specification it returns the stated list, and a repeated keyword stays repeated.
\<close>

theorem normalize_matches_spec:
  "normalizeKeywords ks = normalize_spec ks
   \<and> normalizeKeywords [js ''fast!'', js ''2-day'', js '''', js ''Good'']
       = [js ''fast'', js ''day'', js ''Good'']
   \<and> normalizeKeywords [js ''ok'', js ''o-k'', js ''ok''] = [js ''ok'', js ''ok'', js ''ok'']"
  by (simp add: normalize_spec_eq)
    (simp add: normalizeKeywords_def strip_non_alpha_def is_ascii_letter_def js_def)

text \<open>
  C7. Normalising a keyword list twice gives the same list as normalising it once.
\<close>

theorem normalize_idempotent:
  "normalizeKeywords (normalizeKeywords x) = normalizeKeywords x"
proof (induction x)
  case Nil
  show ?case by (simp add: normalizeKeywords_def)
next
  case (Cons k ks)
  then show ?case
    by (simp add: normalizeKeywords_def strip_non_alpha_idem)
qed


section \<open>analyze: results\<close>

lemma callback_keeps:
  "forEach_callback d = Inr d' \<Longrightarrow> sentiment d' = sentiment d \<and> insight d' = insight d"
  by (auto simp: forEach_callback_def split: keywords_value.splits)

lemma forEach_frame:
  "ins \<in> set (fst (forEach_insights visited rest)) \<Longrightarrow>
   map (\<lambda>(k, d). (k, sentiment d, insight d)) ins
     = map (\<lambda>(k, d). (k, sentiment d, insight d)) (visited @ rest)"
proof (induction rest arbitrary: visited ins)
  case Nil
  then show ?case by simp
next
  case (Cons e rest)
  obtain k d where e: "e = (k, d)" by (cases e)
  show ?case
  proof (cases "forEach_callback d")
    case (Inl message)
    with Cons.prems e show ?thesis by simp
  next
    case (Inr d')
    then have same: "sentiment d' = sentiment d" "insight d' = insight d"
      by (simp_all add: callback_keeps)
    from Cons.prems e Inr
    consider "ins = visited @ (k, d') # rest"
      | "ins \<in> set (fst (forEach_insights (visited @ [(k, d')]) rest))"
      by (auto split: prod.splits)
    then show ?thesis
    proof cases
      case 1
      with e same show ?thesis by simp
    next
      case 2
      then have "map (\<lambda>(k, d). (k, sentiment d, insight d)) ins
          = map (\<lambda>(k, d). (k, sentiment d, insight d)) ((visited @ [(k, d')]) @ rest)"
        by (rule Cons.IH)
      with e same show ?thesis by simp
    qed
  qed
qed

lemma forEach_well_shaped:
  "list_all has_keywords rest \<Longrightarrow>
   snd (forEach_insights visited rest) = None
   \<and> last ((visited @ rest) # fst (forEach_insights visited rest)) = visited @ normalize_insights rest"
proof (induction rest arbitrary: visited)
  case Nil
  show ?case by (simp add: normalize_insights_def)
next
  case (Cons e rest)
  obtain k d where e: "e = (k, d)" by (cases e)
  from Cons.prems e obtain ks where ks: "common_keywords d = Keywords ks"
    by (auto simp: has_keywords_def split: keywords_value.splits)
  let ?d' = "d\<lparr>common_keywords := Keywords (normalizeKeywords ks)\<rparr>"
  have call: "forEach_callback d = Inr ?d'"
    by (simp add: forEach_callback_def ks)
  obtain later thrown where rec: "forEach_insights (visited @ [(k, ?d')]) rest = (later, thrown)"
    by (cases "forEach_insights (visited @ [(k, ?d')]) rest")
  from Cons.prems have "list_all has_keywords rest" by simp
  from Cons.IH [OF this, of "visited @ [(k, ?d')]"] rec
  have none: "thrown = None"
    and final: "last ((visited @ (k, ?d') # rest) # later) = visited @ (k, ?d') # normalize_insights rest"
    by simp_all
  have whole: "forEach_insights visited (e # rest) = ((visited @ (k, ?d') # rest) # later, thrown)"
    by (simp add: e call rec)
  have "normalize_insights (e # rest) = (k, ?d') # normalize_insights rest"
    by (simp add: e normalize_insights_def normalize_data_def call)
  with none final show ?case
    by (simp add: whole del: last.simps) (simp add: last_ConsR)
qed

lemma forEach_faulty:
  "\<not> list_all has_keywords rest \<Longrightarrow> \<exists>message. snd (forEach_insights visited rest) = Some message"
proof (induction rest arbitrary: visited)
  case Nil
  then show ?case by simp
next
  case (Cons e rest)
  obtain k d where e: "e = (k, d)" by (cases e)
  show ?case
  proof (cases "forEach_callback d")
    case (Inl message)
    with e show ?thesis by simp
  next
    case (Inr d')
    then have "has_keywords e"
      by (auto simp: e has_keywords_def forEach_callback_def split: keywords_value.splits)
    with Cons.prems have "\<not> list_all has_keywords rest" by simp
    from Cons.IH [OF this, of "visited @ [(k, d')]"] e Inr show ?thesis
      by (auto split: prod.splits)
  qed
qed

lemma submit_blank:
  "reviews_of (reviewsText s) = [] \<Longrightarrow>
   last (submit_steps s) = s\<lparr>error := js ''Please enter at least one review.'', result := None, isLoading := False\<rparr>"
  by (simp add: submit_steps_def clear_steps_def reject_steps_def Let_def)

lemma submit_sent:
  "reviews_of (reviewsText s) \<noteq> [] \<Longrightarrow>
   last (submit_steps s) =
     s\<lparr>error := [], result := None, isLoading := True, requests := requests s @ [reviews_of (reviewsText s)]\<rparr>"
  by (simp add: submit_steps_def clear_steps_def send_def Let_def)

lemma last_catch_steps:
  "last (catch_steps m s) = s\<lparr>error := or_else m (js ''Request failed.''), isLoading := False\<rparr>"
  by (simp add: catch_steps_def Let_def)

lemma last_not_ok_steps:
  "last (not_ok_steps e s) = s\<lparr>error := or_else_opt e (js ''Something went wrong.''), isLoading := False\<rparr>"
  by (simp add: not_ok_steps_def Let_def)

lemma last_ok_steps_null:
  "last (ok_steps None s) = s\<lparr>result := None, selectedAspect := None, isLoading := False\<rparr>"
  by (simp add: ok_steps_def Let_def)

lemma last_ok_steps:
  assumes "well_shaped r"
  shows "last (ok_steps (Some r) s) =
     s\<lparr>result := Some (r\<lparr>insights := normalize_insights (insights r)\<rparr>),
       selectedAspect := first_key (insights r),
       isLoading := False\<rparr>"
proof -
  obtain vals thrown where run: "forEach_insights [] (insights r) = (vals, thrown)"
    by (cases "forEach_insights [] (insights r)")
  from assms have shaped: "list_all has_keywords (insights r)"
    by (simp add: well_shaped_def)
  from forEach_well_shaped [OF shaped, of "[]"] run
  have none: "thrown = None" and final: "last (insights r # vals) = normalize_insights (insights r)"
    by simp_all
  define loop where "loop = map (\<lambda>ins. s\<lparr>result := Some (r\<lparr>insights := ins\<rparr>)\<rparr>) vals"
  define s2 where "s2 = last (s\<lparr>result := Some r\<rparr> # loop)"
  have "s2 = s\<lparr>result := Some (r\<lparr>insights := last (insights r # vals)\<rparr>)\<rparr>"
    unfolding s2_def loop_def by (cases vals rule: rev_cases) simp_all
  with final have s2: "s2 = s\<lparr>result := Some (r\<lparr>insights := normalize_insights (insights r)\<rparr>)\<rparr>"
    by simp
  have key: "first_key (normalize_insights (insights r)) = first_key (insights r)"
    by (cases "insights r") (auto simp: first_key_def normalize_insights_def)
  have "ok_steps (Some r) s =
      (s\<lparr>result := Some r\<rparr> # loop)
      @ [s2\<lparr>selectedAspect := (case result s2 of None \<Rightarrow> None | Some r' \<Rightarrow> first_key (insights r'))\<rparr>,
         s2\<lparr>selectedAspect := (case result s2 of None \<Rightarrow> None | Some r' \<Rightarrow> first_key (insights r')),
            isLoading := False\<rparr>]"
    unfolding s2_def loop_def by (simp add: ok_steps_def Let_def run none del: last.simps)
  then have "last (ok_steps (Some r) s) =
      s2\<lparr>selectedAspect := (case result s2 of None \<Rightarrow> None | Some r' \<Rightarrow> first_key (insights r')),
         isLoading := False\<rparr>"
    by (simp only: last_appendR last.simps list.distinct if_False if_True not_Cons_self2 simp_thms)
  then show ?thesis
    by (simp add: s2 key)
qed

lemma ok_steps_null_fields:
  "s' \<in> set (ok_steps None s) \<Longrightarrow>
   events s' = events s \<and> chartInstance s' = chartInstance s \<and> requests s' = requests s"
  by (auto simp: ok_steps_def Let_def)

lemma ok_steps_nonempty: "ok_steps body s \<noteq> []"
  by (cases body) (auto simp: ok_steps_def Let_def split: prod.splits option.splits)

lemma resume_steps_nonempty: "resume_steps out s \<noteq> []"
  by (induction out s rule: resume_steps.induct)
     (simp_all add: catch_steps_def not_ok_steps_def ok_steps_nonempty Let_def)

lemma analyze_blank:
  "reviews_of (reviewsText s) = [] \<Longrightarrow> analyze out s = last (submit_steps s)"
  by (simp add: analyze_def analyze_steps_def Let_def)

lemma analyze_sent:
  "reviews_of (reviewsText s) \<noteq> [] \<Longrightarrow> analyze out s = last (resume_steps out (last (submit_steps s)))"
  by (simp add: analyze_def analyze_steps_def Let_def resume_steps_nonempty)

lemma analyze_in_steps: "analyze out s \<in> set (analyze_steps out s)"
proof -
  have "analyze_steps out s \<noteq> []"
    by (simp add: analyze_steps_def submit_steps_def clear_steps_def Let_def)
  then show ?thesis by (simp add: analyze_def)
qed

lemma split_newline_nonempty: "split_newline t \<noteq> []"
  by (induction t) (simp_all split: list.splits)

lemma split_newline_units: "l \<in> set (split_newline t) \<Longrightarrow> set l \<subseteq> set t"
proof (induction t arbitrary: l)
  case Nil
  then show ?case by simp
next
  case (Cons c cs)
  show ?case
  proof (cases "c = 0x0A")
    case True
    with Cons show ?thesis by auto
  next
    case False
    obtain h r where hr: "split_newline cs = h # r"
      using split_newline_nonempty [of cs] by (cases "split_newline cs") auto
    with False Cons.prems have "l = c # h \<or> l \<in> set r" by auto
    then show ?thesis
      using Cons.IH [of h] Cons.IH [of l] hr by auto
  qed
qed

lemma split_newline_covers:
  "c \<in> set t \<Longrightarrow> c = 0x0A \<or> (\<exists>l \<in> set (split_newline t). c \<in> set l)"
proof (induction t)
  case Nil
  then show ?case by simp
next
  case (Cons a cs)
  obtain h r where hr: "split_newline cs = h # r"
    using split_newline_nonempty [of cs] by (cases "split_newline cs") auto
  show ?case
  proof (cases "a = 0x0A")
    case True
    with Cons show ?thesis by auto
  next
    case False
    with Cons hr show ?thesis by auto
  qed
qed

lemma trim_blank: "trim l = [] \<longleftrightarrow> (\<forall>c \<in> set l. isWhiteSpace c)"
proof -
  have "trim l = [] \<longleftrightarrow> (\<forall>c \<in> set (dropWhile isWhiteSpace l). isWhiteSpace c)"
    by (simp add: trim_def dropWhile_eq_Nil_conv)
  also have "\<dots> \<longleftrightarrow> dropWhile isWhiteSpace l = []"
  proof
    assume all: "\<forall>c \<in> set (dropWhile isWhiteSpace l). isWhiteSpace c"
    show "dropWhile isWhiteSpace l = []"
    proof (rule ccontr)
      assume ne: "dropWhile isWhiteSpace l \<noteq> []"
      then have "\<not> isWhiteSpace (hd (dropWhile isWhiteSpace l))"
        by (rule hd_dropWhile)
      moreover from ne have "hd (dropWhile isWhiteSpace l) \<in> set (dropWhile isWhiteSpace l)"
        by (rule hd_in_set)
      ultimately show False using all by blast
    qed
  next
    assume empty: "dropWhile isWhiteSpace l = []"
    show "\<forall>c \<in> set (dropWhile isWhiteSpace l). isWhiteSpace c"
      unfolding empty by simp
  qed
  also have "\<dots> \<longleftrightarrow> (\<forall>c \<in> set l. isWhiteSpace c)"
    by (simp add: dropWhile_eq_Nil_conv)
  finally show ?thesis .
qed

lemma line_feed_white: "isWhiteSpace 0x0A"
  by (simp add: isWhiteSpace_def white_space_units_def)

lemma reviews_of_blank: "reviews_of t = [] \<longleftrightarrow> (\<forall>c \<in> set t. isWhiteSpace c)"
proof
  assume "reviews_of t = []"
  then have blank: "\<And>l. l \<in> set (split_newline t) \<Longrightarrow> \<forall>c \<in> set l. isWhiteSpace c"
    by (auto simp: reviews_of_def filter_empty_conv trim_blank)
  show "\<forall>c \<in> set t. isWhiteSpace c"
  proof
    fix c assume "c \<in> set t"
    then show "isWhiteSpace c"
      using split_newline_covers [of c t] blank line_feed_white by auto
  qed
next
  assume "\<forall>c \<in> set t. isWhiteSpace c"
  then have "\<And>l. l \<in> set (split_newline t) \<Longrightarrow> trim l = []"
    using split_newline_units by (fastforce simp: trim_blank)
  then show "reviews_of t = []"
    by (auto simp: reviews_of_def filter_empty_conv)
qed

lemma requests_submit_blank:
  "reviews_of (reviewsText s) = [] \<Longrightarrow> s' \<in> set (submit_steps s) \<Longrightarrow> requests s' = requests s"
  by (auto simp: submit_steps_def clear_steps_def reject_steps_def Let_def)

text \<open>
  C4. When every code unit of the submitted text is white space (the empty text
  included), no state of the submission has sent a request, the visible error is the
  validation message, the busy flag is cleared and no result is stored.
\<close>

theorem blank_input_rejected:
  assumes "\<forall>c \<in> set (reviewsText s). isWhiteSpace c"
  shows "(\<forall>s' \<in> set (analyze_steps out s). requests s' = requests s)
         \<and> error (analyze out s) = js ''Please enter at least one review.''
         \<and> \<not> isLoading (analyze out s)
         \<and> result (analyze out s) = None"
proof -
  from assms have blank: "reviews_of (reviewsText s) = []"
    by (simp add: reviews_of_blank)
  have "\<forall>s' \<in> set (analyze_steps out s). requests s' = requests s"
    using blank by (auto simp: analyze_steps_def Let_def dest: requests_submit_blank)
  then show ?thesis
    using blank by (simp add: analyze_blank submit_blank)
qed

theorem blank_input_rejected_witness:
  "requests (analyze (FetchRejects []) blank_page) = []
   \<and> error (analyze (FetchRejects []) blank_page) = js ''Please enter at least one review.''
   \<and> \<not> isLoading (analyze (FetchRejects []) blank_page)
   \<and> result (analyze (FetchRejects []) blank_page) = None"
proof -
  have blank: "\<forall>c \<in> set (reviewsText blank_page). isWhiteSpace c"
    by (simp add: blank_page_def init_def js_def isWhiteSpace_def white_space_units_def)
  have "analyze_steps (FetchRejects []) blank_page \<noteq> []"
    by (simp add: analyze_steps_def submit_steps_def clear_steps_def Let_def)
  then have mem: "analyze (FetchRejects []) blank_page \<in> set (analyze_steps (FetchRejects []) blank_page)"
    by (simp add: analyze_def)
  have "requests blank_page = []"
    by (simp add: blank_page_def init_def)
  with blank_input_rejected [OF blank, of "FetchRejects []"] mem show ?thesis
    by auto
qed

section \<open>The result and the error message\<close>

lemma excl_submit: "s' \<in> set (submit_steps s) \<Longrightarrow> exclusive s'"
  by (auto simp: submit_steps_def clear_steps_def reject_steps_def send_def Let_def exclusive_def
           split: if_splits)

lemma ok_steps_shape:
  assumes "s' \<in> set (ok_steps (Some r) s)"
  shows "(\<exists>ins \<in> set (insights r # fst (forEach_insights [] (insights r))).
            result s' = Some (r\<lparr>insights := ins\<rparr>))
         \<and> events s' = events s \<and> chartInstance s' = chartInstance s \<and> requests s' = requests s
         \<and> (if snd (forEach_insights [] (insights r)) = None then error s' = error s else True)"
proof -
  obtain vals thrown where run: "forEach_insights [] (insights r) = (vals, thrown)"
    by (cases "forEach_insights [] (insights r)")
  define stored where "stored ins = s\<lparr>result := Some (r\<lparr>insights := ins\<rparr>)\<rparr>" for ins
  define loop where "loop = map stored vals"
  define s2 where "s2 = last (stored (insights r) # loop)"
  have "s2 \<in> set (stored (insights r) # loop)"
    unfolding s2_def by (rule last_in_set) simp
  then obtain ins2 where ins2: "ins2 \<in> set (insights r # vals)" "s2 = stored ins2"
    by (auto simp: loop_def)
  have steps: "ok_steps (Some r) s =
      (stored (insights r) # loop)
      @ (case thrown of
           Some message \<Rightarrow> catch_steps message s2
         | None \<Rightarrow>
             [s2\<lparr>selectedAspect := (case result s2 of None \<Rightarrow> None | Some r' \<Rightarrow> first_key (insights r'))\<rparr>,
              s2\<lparr>selectedAspect := (case result s2 of None \<Rightarrow> None | Some r' \<Rightarrow> first_key (insights r')),
                 isLoading := False\<rparr>])"
    unfolding s2_def loop_def stored_def
    by (simp add: ok_steps_def Let_def run del: last.simps split: option.splits)
  from assms steps consider "s' \<in> set (stored (insights r) # loop)"
    | message where "thrown = Some message" "s' \<in> set (catch_steps message s2)"
    | "thrown = None"
      "s' = s2\<lparr>selectedAspect := (case result s2 of None \<Rightarrow> None | Some r' \<Rightarrow> first_key (insights r'))\<rparr>
       \<or> s' = s2\<lparr>selectedAspect := (case result s2 of None \<Rightarrow> None | Some r' \<Rightarrow> first_key (insights r')),
                  isLoading := False\<rparr>"
    by (cases thrown) auto
  then show ?thesis
  proof cases
    case 1
    then obtain ins where "ins \<in> set (insights r # vals)" "s' = stored ins"
      by (auto simp: loop_def)
    then show ?thesis
      by (auto simp: stored_def run)
  next
    case 2
    then have "s' = s2\<lparr>error := or_else message (js ''Request failed.'')\<rparr>
        \<or> s' = s2\<lparr>error := or_else message (js ''Request failed.''), isLoading := False\<rparr>"
      by (auto simp: catch_steps_def Let_def)
    with ins2 2(1) show ?thesis
      by (auto simp: stored_def run)
  next
    case 3
    with ins2 show ?thesis
      by (auto simp: stored_def run)
  qed
qed

lemma ok_steps_error:
  assumes "case body of None \<Rightarrow> True | Some r \<Rightarrow> well_shaped r" and "s' \<in> set (ok_steps body s)"
  shows "error s' = error s"
proof (cases body)
  case None
  with assms(2) show ?thesis by (auto simp: ok_steps_def Let_def)
next
  case (Some r)
  with assms(1) have "list_all has_keywords (insights r)"
    by (simp add: well_shaped_def)
  then have "snd (forEach_insights [] (insights r)) = None"
    by (simp add: forEach_well_shaped)
  with ok_steps_shape [of s' r s] assms(2) Some show ?thesis
    by auto
qed

lemma excl_resume:
  assumes "well_shaped_outcome out" and "error s = []" and "result s = None"
    and "s' \<in> set (resume_steps out s)"
  shows "exclusive s'"
  using assms
proof (induction out s rule: resume_steps.induct)
  case (6 body s)
  then have "error s' = []"
    using ok_steps_error [of body s' s]
    by (cases body) (simp_all add: well_shaped_outcome_def)
  then show ?case by (simp add: exclusive_def)
qed (auto simp: catch_steps_def not_ok_steps_def Let_def exclusive_def)

text \<open>
  When nothing throws after the result is stored, every state that \<open>analyze\<close> passes
  through has a result or an error message, never both.
\<close>

lemma exclusive_when_well_shaped:
  assumes "well_shaped_outcome out" and "s' \<in> set (analyze_steps out s)"
  shows "exclusive s'"
proof (cases "reviews_of (reviewsText s) = []")
  case True
  with assms(2) show ?thesis
    by (auto simp: analyze_steps_def Let_def dest: excl_submit)
next
  case False
  with assms(2) consider "s' \<in> set (submit_steps s)"
    | "s' \<in> set (resume_steps out (last (submit_steps s)))"
    by (auto simp: analyze_steps_def Let_def)
  then show ?thesis
  proof cases
    case 1
    then show ?thesis by (rule excl_submit)
  next
    case 2
    have "error (last (submit_steps s)) = []" and "result (last (submit_steps s)) = None"
      using False by (simp_all add: submit_sent)
    with assms(1) show ?thesis using 2 by (rule excl_resume)
  qed
qed

lemma last_ok_steps_faulty:
  assumes "insights r = (k, d) # rest" and "common_keywords d = NotKeywords message"
  shows "last (ok_steps (Some r) s) =
     s\<lparr>result := Some r, error := or_else message (js ''Request failed.''), isLoading := False\<rparr>"
  using assms by (simp add: ok_steps_def Let_def forEach_callback_def catch_steps_def)

lemma last_ok_steps_thrown:
  assumes "snd (forEach_insights [] (insights r)) = Some message"
  shows "result (last (ok_steps (Some r) s)) \<noteq> None
         \<and> error (last (ok_steps (Some r) s)) = or_else message (js ''Request failed.'')"
proof -
  obtain vals where run: "forEach_insights [] (insights r) = (vals, Some message)"
    using assms by (cases "forEach_insights [] (insights r)") simp
  define stored where "stored ins = s\<lparr>result := Some (r\<lparr>insights := ins\<rparr>)\<rparr>" for ins
  define s2 where "s2 = last (stored (insights r) # map stored vals)"
  have "s2 \<in> set (stored (insights r) # map stored vals)"
    unfolding s2_def by (rule last_in_set) simp
  then have present: "result s2 \<noteq> None"
    by (auto simp: stored_def)
  have "ok_steps (Some r) s = (stored (insights r) # map stored vals) @ catch_steps message s2"
    unfolding s2_def stored_def
    by (simp add: ok_steps_def Let_def run del: last.simps)
  then have "last (ok_steps (Some r) s) = last (catch_steps message s2)"
    by (simp add: catch_steps_def Let_def)
  with present show ?thesis
    by (simp add: last_catch_steps)
qed

text \<open>
  When an aspect of a success body has no array of strings as its keywords, the
  submission ends with the result and an error message both present.
\<close>

lemma both_present_when_faulty:
  assumes "reviews_of (reviewsText s) \<noteq> []" and "\<not> well_shaped r"
  shows "\<not> exclusive (analyze (ResponseOk (Parsed (Some r))) s)"
proof -
  from assms(2) obtain message where "snd (forEach_insights [] (insights r)) = Some message"
    using forEach_faulty [of "insights r" "[]"] by (auto simp: well_shaped_def)
  from last_ok_steps_thrown [OF this, of "last (submit_steps s)"] assms(1)
  show ?thesis
    by (auto simp: analyze_sent exclusive_def or_else_def js_def)
qed

lemma scenario_reviews: "reviews_of scenario_text = [js ''Great battery life'', js ''Screen is too dim'']"
  by (simp add: reviews_of_def scenario_text_def js_def trim_def isWhiteSpace_def white_space_units_def)

lemma scenario_sent: "reviews_of (reviewsText scenario_page) \<noteq> []"
  by (simp add: scenario_page_def init_def scenario_reviews)

text \<open>
  C1. The code breaks the statement. A success response is stored in line 83 before its
  keyword lists are rewritten; when an aspect of the body has no \<open>common_keywords\<close>
  array, line 86 throws, the \<open>catch\<close> block of line 93 sets the error message, and the
  result stays stored. After the submission of scenario 1 with such a body the result
  and a non-empty error message are both present.
\<close>

theorem result_and_error_both_present:
  "result (analyze (ResponseOk (Parsed (Some faulty_result))) scenario_page) = Some faulty_result
   \<and> error (analyze (ResponseOk (Parsed (Some faulty_result))) scenario_page)
       = js ''data.common_keywords is undefined''
   \<and> \<not> exclusive (analyze (ResponseOk (Parsed (Some faulty_result))) scenario_page)"
proof -
  have "insights faulty_result =
      [(js ''battery'',
        \<lparr>sentiment = [(js ''positive'', 100)], insight = js ''Lasts long'',
         common_keywords = NotKeywords (js ''data.common_keywords is undefined'')\<rparr>)]"
    by (simp add: faulty_result_def)
  then have "analyze (ResponseOk (Parsed (Some faulty_result))) scenario_page =
      (last (submit_steps scenario_page))
        \<lparr>result := Some faulty_result,
         error := or_else (js ''data.common_keywords is undefined'') (js ''Request failed.''),
         isLoading := False\<rparr>"
    by (simp add: analyze_sent scenario_sent last_ok_steps_faulty)
  moreover have "js ''data.common_keywords is undefined'' \<noteq> []"
    by (simp add: js_def)
  ultimately show ?thesis
    by (simp add: exclusive_def or_else_def)
qed


section \<open>The outcome of a submission\<close>

lemma scenario_well_shaped: "well_shaped scenario_result"
  by (simp add: well_shaped_def scenario_result_def has_keywords_def)

lemma analyze_ok:
  "reviews_of (reviewsText s) \<noteq> [] \<Longrightarrow> well_shaped r \<Longrightarrow>
   analyze (ResponseOk (Parsed (Some r))) s =
     s\<lparr>error := [],
       result := Some (r\<lparr>insights := normalize_insights (insights r)\<rparr>),
       isLoading := False,
       selectedAspect := first_key (insights r),
       requests := requests s @ [reviews_of (reviewsText s)]\<rparr>"
  by (simp add: analyze_sent submit_sent last_ok_steps)

lemma scenario_analyze:
  "analyze (ResponseOk (Parsed (Some scenario_result))) scenario_page =
     scenario_page\<lparr>result := Some (scenario_result\<lparr>insights := normalize_insights (insights scenario_result)\<rparr>),
        selectedAspect := Some (js ''battery''), isLoading := False,
        requests := [[js ''Great battery life'', js ''Screen is too dim'']]\<rparr>"
proof -
  have "first_key (insights scenario_result) = Some (js ''battery'')"
    by (simp add: first_key_def scenario_result_def)
  moreover have "reviews_of (reviewsText scenario_page) = [js ''Great battery life'', js ''Screen is too dim'']"
    and "error scenario_page = []" and "requests scenario_page = []"
    by (simp_all add: scenario_page_def init_def scenario_reviews)
  ultimately show ?thesis
    by (simp add: analyze_ok scenario_well_shaped)
qed

lemma analyze_not_ok:
  "reviews_of (reviewsText s) \<noteq> [] \<Longrightarrow>
   analyze (ResponseNotOk b) s =
     s\<lparr>error := (case b of
                    Throws m \<Rightarrow> or_else m (js ''Request failed.'')
                  | Parsed (NullBody m) \<Rightarrow> or_else m (js ''Request failed.'')
                  | Parsed (Body e) \<Rightarrow> or_else_opt e (js ''Something went wrong.'')),
       result := None,
       isLoading := False,
       requests := requests s @ [reviews_of (reviewsText s)]\<rparr>"
proof (cases b)
  case (Throws m)
  assume "reviews_of (reviewsText s) \<noteq> []"
  with Throws show ?thesis
    by (simp add: analyze_sent submit_sent last_catch_steps)
next
  case (Parsed body)
  assume "reviews_of (reviewsText s) \<noteq> []"
  with Parsed show ?thesis
    by (cases body) (simp_all add: analyze_sent submit_sent last_catch_steps last_not_ok_steps)
qed

lemma keys_normalize: "map fst (normalize_insights ins) = map fst ins"
  by (induction ins) (auto simp: normalize_insights_def)

text \<open>
  C2, as the code has it. After a submission with a non-empty batch that receives a
  successful response of the declared shape whose first aspect has a non-empty name, and
  after the repair effect has run, \<open>selectedAspect\<close> is that first aspect name, which is a
  key of the stored result's insights.
\<close>

theorem selection_valid_after_success:
  assumes "reviews_of (reviewsText s) \<noteq> []" and "well_shaped r"
    and "insights r = (k, d) # rest" and "k \<noteq> []"
  shows "selectedAspect (repair_effect (analyze (ResponseOk (Parsed (Some r))) s)) = Some k
         \<and> valid_selection (repair_effect (analyze (ResponseOk (Parsed (Some r))) s))"
  using assms
  by (simp add: analyze_ok repair_effect_def first_key_def absent_def
      valid_selection_def keys_normalize)

theorem selection_valid_after_success_witness:
  "selectedAspect (repair_effect (analyze (ResponseOk (Parsed (Some scenario_result))) scenario_page))
     = Some (js ''battery'')
   \<and> valid_selection (repair_effect (analyze (ResponseOk (Parsed (Some scenario_result))) scenario_page))"
proof -
  have "insights scenario_result =
      (js ''battery'',
       \<lparr>sentiment = [(js ''positive'', 80), (js ''negative'', 20)], insight = js ''Lasts long'',
        common_keywords = Keywords [js ''fast!'', js ''2-day'', js '''', js ''Good'']\<rparr>)
      # tl (insights scenario_result)"
    by (simp add: scenario_result_def)
  moreover have "js ''battery'' \<noteq> []"
    by (simp add: js_def)
  ultimately show ?thesis
    by (rule selection_valid_after_success [OF scenario_sent scenario_well_shaped])
qed

text \<open>
  Without the two conditions on the aspects the statement fails: a successful response
  with no aspect leaves nothing to select, and when the first aspect has the empty name
  the repair effect reads the selection as absent and clears it.
\<close>

theorem selection_counterexample:
  "reviews_of (reviewsText scenario_page) \<noteq> []
   \<and> \<not> valid_selection (repair_effect (analyze (ResponseOk (Parsed (Some empty_result))) scenario_page))
   \<and> \<not> valid_selection (repair_effect (analyze (ResponseOk (Parsed (Some unnamed_result))) scenario_page))"
proof -
  have "well_shaped empty_result" and "well_shaped unnamed_result"
    by (simp_all add: well_shaped_def empty_result_def unnamed_result_def has_keywords_def)
  with scenario_sent show ?thesis
    by (simp add: analyze_ok repair_effect_def first_key_def absent_def
        valid_selection_def empty_result_def unnamed_result_def normalize_insights_def)
qed

lemma same_aspects_normalize:
  "map (\<lambda>(k, d). (k, sentiment d, insight d)) (normalize_insights ins)
     = map (\<lambda>(k, d). (k, sentiment d, insight d)) ins"
  by (induction ins)
     (auto simp: normalize_insights_def normalize_data_def forEach_callback_def
           split: keywords_value.splits)

lemma keywords_normalize:
  "list_all has_keywords ins \<Longrightarrow>
   map (\<lambda>(k, d). common_keywords d) (normalize_insights ins)
     = map (\<lambda>(k, d). case common_keywords d of
                         Keywords ks \<Rightarrow> Keywords (normalizeKeywords ks)
                       | NotKeywords message \<Rightarrow> NotKeywords message) ins"
  by (induction ins)
     (auto simp: normalize_insights_def normalize_data_def forEach_callback_def has_keywords_def
           split: keywords_value.splits)

lemma ok_steps_frame:
  assumes "s' \<in> set (ok_steps (Some r) s)"
  shows "\<exists>r'. result s' = Some r' \<and> same_aspects r r'"
proof -
  from ok_steps_shape [OF assms] obtain ins
    where ins: "ins \<in> set (insights r # fst (forEach_insights [] (insights r)))"
      and stored: "result s' = Some (r\<lparr>insights := ins\<rparr>)"
    by blast
  have "map (\<lambda>(k, d). (k, sentiment d, insight d)) ins
      = map (\<lambda>(k, d). (k, sentiment d, insight d)) (insights r)"
  proof (cases "ins = insights r")
    case True
    then show ?thesis by simp
  next
    case False
    with ins have "ins \<in> set (fst (forEach_insights [] (insights r)))" by simp
    from forEach_frame [OF this] show ?thesis by simp
  qed
  with stored show ?thesis
    by (simp add: same_aspects_def)
qed

text \<open>
  C10. After a successful response to a non-empty batch the stored result has the
  aspects of the response, in the same order, each with the sentiment mapping and the
  insight text it was received with; this holds of the result in every state from the
  arrival of the response on, the states inside the \<open>forEach\<close> loop included, and also
  when the loop throws. When the response has the declared shape, the keyword list of
  each aspect in the result is the normalised one, so that the keyword lists are all that
  differs.
\<close>

theorem normalization_frame:
  assumes "reviews_of (reviewsText s) \<noteq> []"
  shows "(\<exists>r'. result (analyze (ResponseOk (Parsed (Some r))) s) = Some r'
              \<and> same_aspects r r'
              \<and> (well_shaped r \<longrightarrow>
                   map (\<lambda>(k, d). common_keywords d) (insights r')
                     = map (\<lambda>(k, d). case common_keywords d of
                                         Keywords ks \<Rightarrow> Keywords (normalizeKeywords ks)
                                       | NotKeywords message \<Rightarrow> NotKeywords message)
                         (insights r)))
         \<and> (\<forall>s' \<in> set (resume_steps (ResponseOk (Parsed (Some r))) (last (submit_steps s))).
               \<forall>r'. result s' = Some r' \<longrightarrow> same_aspects r r')"
proof (intro conjI ballI allI impI)
  let ?sent = "last (submit_steps s)"
  have "analyze (ResponseOk (Parsed (Some r))) s = last (ok_steps (Some r) ?sent)"
    using assms by (simp add: analyze_sent)
  then have "analyze (ResponseOk (Parsed (Some r))) s \<in> set (ok_steps (Some r) ?sent)"
    by (simp add: ok_steps_nonempty)
  then obtain r' where r': "result (analyze (ResponseOk (Parsed (Some r))) s) = Some r'"
    "same_aspects r r'"
    using ok_steps_frame by blast
  have "well_shaped r \<longrightarrow>
      map (\<lambda>(k, d). common_keywords d) (insights r')
        = map (\<lambda>(k, d). case common_keywords d of
                            Keywords ks \<Rightarrow> Keywords (normalizeKeywords ks)
                          | NotKeywords message \<Rightarrow> NotKeywords message)
            (insights r)"
  proof
    assume shaped: "well_shaped r"
    with assms r'(1) have "r' = r\<lparr>insights := normalize_insights (insights r)\<rparr>"
      by (simp add: analyze_ok)
    with shaped show "map (\<lambda>(k, d). common_keywords d) (insights r')
        = map (\<lambda>(k, d). case common_keywords d of
                            Keywords ks \<Rightarrow> Keywords (normalizeKeywords ks)
                          | NotKeywords message \<Rightarrow> NotKeywords message)
            (insights r)"
      by (simp add: keywords_normalize well_shaped_def)
  qed
  with r' show "\<exists>r'. result (analyze (ResponseOk (Parsed (Some r))) s) = Some r'
      \<and> same_aspects r r'
      \<and> (well_shaped r \<longrightarrow>
           map (\<lambda>(k, d). common_keywords d) (insights r')
             = map (\<lambda>(k, d). case common_keywords d of
                                 Keywords ks \<Rightarrow> Keywords (normalizeKeywords ks)
                               | NotKeywords message \<Rightarrow> NotKeywords message)
                 (insights r))"
    by blast
next
  fix s' r'
  assume "s' \<in> set (resume_steps (ResponseOk (Parsed (Some r))) (last (submit_steps s)))"
    and "result s' = Some r'"
  then show "same_aspects r r'"
    using ok_steps_frame [of s' r "last (submit_steps s)"] by auto
qed

theorem normalization_frame_witness:
  "result (analyze (ResponseOk (Parsed (Some scenario_result))) scenario_page)
     = Some (scenario_result\<lparr>insights := normalize_insights (insights scenario_result)\<rparr>)
   \<and> same_aspects scenario_result (scenario_result\<lparr>insights := normalize_insights (insights scenario_result)\<rparr>)
   \<and> map (\<lambda>(k, d). common_keywords d) (normalize_insights (insights scenario_result))
       = [Keywords [js ''fast'', js ''day'', js ''Good''], Keywords [js ''dim'']]"
proof -
  have stored: "result (analyze (ResponseOk (Parsed (Some scenario_result))) scenario_page)
      = Some (scenario_result\<lparr>insights := normalize_insights (insights scenario_result)\<rparr>)"
    by (simp add: scenario_analyze)
  have "map (\<lambda>(k, d). case common_keywords d of
                         Keywords ks \<Rightarrow> Keywords (normalizeKeywords ks)
                       | NotKeywords message \<Rightarrow> NotKeywords message)
          (insights scenario_result)
      = [Keywords [js ''fast'', js ''day'', js ''Good''], Keywords [js ''dim'']]"
    by (simp add: scenario_result_def normalizeKeywords_def strip_non_alpha_def
        is_ascii_letter_def js_def)
  with normalization_frame [OF scenario_sent, of scenario_result] stored scenario_well_shaped
  show ?thesis
    by auto
qed

lemma renderChart_no_result: "result s = None \<Longrightarrow> renderChart s = Inr s"
  by (simp add: renderChart_def)

text \<open>
  The generic message is not what is shown when the body of the failure response cannot
  be parsed, or is \<open>null\<close>: \<open>response.json()\<close> or the reading of \<open>err.error\<close> throws, the
  \<open>catch\<close> block shows the thrown error's message, and that message is not the generic
  one.
\<close>

theorem rejection_message_counterexample:
  "reviews_of (reviewsText scenario_page) \<noteq> []
   \<and> error (analyze (ResponseNotOk (Throws (js ''Unexpected end of JSON input''))) scenario_page)
       = js ''Unexpected end of JSON input''
   \<and> error (analyze (ResponseNotOk (Throws (js ''Unexpected end of JSON input''))) scenario_page)
       \<noteq> spec_rejected_message (Throws (js ''Unexpected end of JSON input''))
   \<and> error (analyze (ResponseNotOk (Parsed (NullBody (js ''err is null'')))) scenario_page)
       = js ''err is null''
   \<and> error (analyze (ResponseNotOk (Parsed (NullBody (js ''err is null'')))) scenario_page)
       \<noteq> spec_rejected_message (Parsed (NullBody (js ''err is null'')))"
  using scenario_sent
  by (simp add: analyze_not_ok or_else_def spec_rejected_message_def js_def)

text \<open>
  C8, as the code has it. After a failure response to a non-empty batch: when the body is
  a value other than \<open>null\<close>, a non-empty \<open>error\<close> string in it is the visible error,
  verbatim, and an \<open>error\<close> that is missing or empty gives \<open>Something went wrong.\<close>; when
  the body cannot be parsed or is \<open>null\<close>, the visible error is the thrown error's
  message, or \<open>Request failed.\<close> when that is empty. In each case no result is stored, the
  busy flag is cleared, no chart call was made and \<open>renderChart\<close> returns without making
  one.
\<close>

theorem rejection_message:
  assumes "reviews_of (reviewsText s) \<noteq> []"
  shows "(\<forall>m. b = Parsed (Body (Some m)) \<and> m \<noteq> [] \<longrightarrow> error (analyze (ResponseNotOk b) s) = m)
         \<and> (b = Parsed (Body None) \<or> b = Parsed (Body (Some [])) \<longrightarrow>
              error (analyze (ResponseNotOk b) s) = js ''Something went wrong.'')
         \<and> (\<forall>m. (b = Throws m \<or> b = Parsed (NullBody m)) \<and> m \<noteq> [] \<longrightarrow>
              error (analyze (ResponseNotOk b) s) = m)
         \<and> (b = Throws [] \<or> b = Parsed (NullBody []) \<longrightarrow>
              error (analyze (ResponseNotOk b) s) = js ''Request failed.'')
         \<and> result (analyze (ResponseNotOk b) s) = None
         \<and> \<not> isLoading (analyze (ResponseNotOk b) s)
         \<and> events (analyze (ResponseNotOk b) s) = events s
         \<and> renderChart (analyze (ResponseNotOk b) s) = Inr (analyze (ResponseNotOk b) s)"
  using assms
  by (auto simp: analyze_not_ok or_else_def or_else_opt_def renderChart_no_result)

theorem rejection_message_witness:
  "error (analyze (ResponseNotOk (Parsed (Body (Some (js ''model unavailable''))))) scenario_page)
     = js ''model unavailable''
   \<and> result (analyze (ResponseNotOk (Parsed (Body (Some (js ''model unavailable''))))) scenario_page) = None
   \<and> events (analyze (ResponseNotOk (Parsed (Body (Some (js ''model unavailable''))))) scenario_page) = []
   \<and> error (analyze (ResponseNotOk (Parsed (NullBody (js ''err is null'')))) scenario_page)
       = js ''err is null''"
proof -
  have "js ''model unavailable'' \<noteq> []" and "js ''err is null'' \<noteq> []"
    by (simp_all add: js_def)
  moreover have "events scenario_page = []"
    by (simp add: scenario_page_def init_def)
  ultimately show ?thesis
    using rejection_message [OF scenario_sent, of "Parsed (Body (Some (js ''model unavailable'')))"]
      rejection_message [OF scenario_sent, of "Parsed (NullBody (js ''err is null''))"]
    by simp
qed


section \<open>The chart: results\<close>

lemma renderChart_Inr:
  assumes "renderChart s = Inr s'"
  shows "s' = s \<or>
         (\<exists>cv cfg. s' = s\<lparr>chartInstance := Some (nextChart s),
                           events := events s @ (case chartInstance s of None \<Rightarrow> [] | Some c \<Rightarrow> [Destroyed c])
                                       @ [Created (nextChart s) cv cfg],
                           nextChart := Suc (nextChart s)\<rparr>)"
  using assms
  by (auto simp: renderChart_def Let_def split: option.splits if_splits)

lemma lifecycle_ok_append:
  "lifecycle_ok cur (es @ es') \<longleftrightarrow> lifecycle_ok cur es \<and> lifecycle_ok (live_after cur es) es'"
  by (induction cur es rule: lifecycle_ok.induct) auto

lemma live_after_append: "live_after cur (es @ es') = live_after (live_after cur es) es'"
  by (induction cur es rule: live_after.induct) auto

lemma replaced_at_once_append:
  "replaced_at_once es \<Longrightarrow> replaced_at_once es' \<Longrightarrow> replaced_at_once (es @ es')"
  by (induction es rule: replaced_at_once.induct) auto

lemma chart_inv_render:
  assumes "chart_inv s" and "renderChart s = Inr s'"
  shows "chart_inv s'"
proof -
  from renderChart_Inr [OF assms(2)] show ?thesis
  proof
    assume "s' = s"
    with assms(1) show ?thesis by simp
  next
    assume "\<exists>cv cfg. s' = s\<lparr>chartInstance := Some (nextChart s),
        events := events s @ (case chartInstance s of None \<Rightarrow> [] | Some c \<Rightarrow> [Destroyed c])
                    @ [Created (nextChart s) cv cfg],
        nextChart := Suc (nextChart s)\<rparr>"
    then obtain cv cfg where s': "s' = s\<lparr>chartInstance := Some (nextChart s),
        events := events s @ (case chartInstance s of None \<Rightarrow> [] | Some c \<Rightarrow> [Destroyed c])
                    @ [Created (nextChart s) cv cfg],
        nextChart := Suc (nextChart s)\<rparr>"
      by blast
    show ?thesis
    proof (cases "chartInstance s")
      case None
      with assms(1) show ?thesis
        by (simp add: s' chart_inv_def lifecycle_ok_append live_after_append replaced_at_once_append)
    next
      case (Some c)
      with assms(1) show ?thesis
        by (simp add: s' chart_inv_def lifecycle_ok_append live_after_append replaced_at_once_append)
    qed
  qed
qed

lemma chart_fields_submit:
  "events (last (submit_steps s)) = events s \<and> chartInstance (last (submit_steps s)) = chartInstance s"
  by (cases "reviews_of (reviewsText s) = []") (simp_all add: submit_blank submit_sent)

lemma chart_fields_resume:
  "events (last (resume_steps out s)) = events s \<and> chartInstance (last (resume_steps out s)) = chartInstance s"
proof (induction out s rule: resume_steps.induct)
  case (6 body s)
  have "last (ok_steps body s) \<in> set (ok_steps body s)"
    by (simp add: ok_steps_nonempty)
  then show ?case
    using ok_steps_shape [of "last (ok_steps body s)" _ s]
      ok_steps_null_fields [of "last (ok_steps body s)" s]
    by (cases body) auto
qed (simp_all add: last_catch_steps last_not_ok_steps)

lemma chart_fields_effects:
  "events (bind_canvas (repair_effect s)) = events s
   \<and> chartInstance (bind_canvas (repair_effect s)) = chartInstance s"
  by (simp add: bind_canvas_def repair_effect_def split: option.splits)

lemma chart_inv_fields:
  "chart_inv s \<Longrightarrow> events s' = events s \<and> chartInstance s' = chartInstance s \<Longrightarrow> chart_inv s'"
  by (simp add: chart_inv_def)

lemma chart_inv_act: "chart_inv s \<Longrightarrow> chart_inv (act a s)"
proof (cases a)
  case Render
  assume "chart_inv s"
  with Render show ?thesis
    by (cases "renderChart s") (auto dest: chart_inv_render)
next
  case Submit
  assume "chart_inv s"
  with Submit show ?thesis
    by (auto intro: chart_inv_fields simp: chart_fields_submit)
next
  case (Respond out)
  assume "chart_inv s"
  with Respond show ?thesis
    by (auto intro: chart_inv_fields simp: chart_fields_resume)
qed (auto simp: chart_inv_def selectChartType_def selectAspect_def split: option.splits)

lemma chart_inv_step: "chart_inv s \<Longrightarrow> chart_inv (step a s)"
  unfolding step_def
  by (rule chart_inv_fields [OF chart_inv_act]) (simp_all add: chart_fields_effects)

lemma chart_inv_run: "chart_inv s \<Longrightarrow> chart_inv (run acts s)"
  by (induction acts arbitrary: s) (simp_all add: chart_inv_step)

lemma chart_inv_init: "chart_inv init"
  by (simp add: chart_inv_def init_def)

lemma attached_bound:
  "lifecycle_ok cur es \<Longrightarrow> map fst L = (case cur of None \<Rightarrow> [] | Some c \<Rightarrow> [c])
   \<Longrightarrow> length (fold attach (take n es) L) \<le> 1"
proof (induction cur es arbitrary: L n rule: lifecycle_ok.induct)
  case (1 cur)
  then have "length (map fst L) \<le> 1" by (simp split: option.splits)
  then show ?case by simp
next
  case (2 cur c cv cfg es)
  show ?case
  proof (cases n)
    case 0
    from 2 have "length (map fst L) \<le> 1" by (simp split: option.splits)
    with 0 show ?thesis by simp
  next
    case (Suc m)
    with 2 show ?thesis by simp
  qed
next
  case (3 cur c es)
  show ?case
  proof (cases n)
    case 0
    from 3 have "length (map fst L) \<le> 1" by (simp split: option.splits)
    with 0 show ?thesis by simp
  next
    case (Suc m)
    from 3 have "filter (\<lambda>p. fst p \<noteq> c) L = []"
      by (cases L) auto
    with 3 Suc show ?thesis by simp
  qed
qed

lemma attached_live:
  "lifecycle_ok cur es \<Longrightarrow> map fst L = (case cur of None \<Rightarrow> [] | Some c \<Rightarrow> [c])
   \<Longrightarrow> map fst (fold attach es L) = (case live_after cur es of None \<Rightarrow> [] | Some c \<Rightarrow> [c])"
proof (induction cur es arbitrary: L rule: lifecycle_ok.induct)
  case (1 cur)
  then show ?case by simp
next
  case (2 cur c cv cfg es)
  then show ?case by simp
next
  case (3 cur c es)
  then have "filter (\<lambda>p. fst p \<noteq> c) L = []"
    by (cases L) auto
  with 3 show ?case by simp
qed


lemma scenario_shown_eval:
  "scenario_shown =
     init\<lparr>reviewsText := scenario_text,
          result := Some (scenario_result\<lparr>insights := normalize_insights (insights scenario_result)\<rparr>),
          selectedAspect := Some (js ''battery''),
          canvas := Some 0,
          requests := [[js ''Great battery life'', js ''Screen is too dim'']],
          nextCanvas := 1\<rparr>"
proof -
  have "first_key (insights scenario_result) = Some (js ''battery'')"
    by (simp add: first_key_def scenario_result_def)
  moreover have "js ''battery'' \<noteq> []"
    by (simp add: js_def)
  ultimately show ?thesis
    by (simp add: scenario_shown_def step_def submit_sent last_ok_steps scenario_well_shaped
        scenario_reviews bind_canvas_def repair_effect_def absent_def init_def)
qed

lemma scenario_battery:
  "map_of (normalize_insights (insights scenario_result)) (js ''battery'') =
     Some \<lparr>sentiment = [(js ''positive'', 80), (js ''negative'', 20)], insight = js ''Lasts long'',
           common_keywords = Keywords [js ''fast'', js ''day'', js ''Good'']\<rparr>"
  by (simp add: scenario_result_def normalize_insights_def normalize_data_def forEach_callback_def
      normalizeKeywords_def strip_non_alpha_def is_ascii_letter_def js_def)

text \<open>
  C5. When the page shows a result, holds a canvas and has a non-empty selected aspect
  that the result has, then after the chart type \<open>t\<close> is chosen \<open>renderChart\<close> makes
  one chart on that canvas (after destroying the previous one, if any); its kind is
  \<open>t\<close>, its labels and values are those of the aspect's sentiment mapping, and it has
  a value axis exactly when \<open>t\<close> is \<open>Bar\<close>: that axis begins at zero, has the maximum 100
  and labels each tick with the value followed by \<open>%\<close>.
\<close>

theorem chart_kind_and_axis:
  assumes "result s = Some r" and "canvas s = Some cv" and "selectedAspect s = Some a"
    and "a \<noteq> []" and "map_of (insights r) a = Some d"
  shows "\<exists>s' c cfg.
           renderChart (selectChartType t s) = Inr s'
           \<and> events s' = events s @ (case chartInstance s of None \<Rightarrow> [] | Some c0 \<Rightarrow> [Destroyed c0])
                            @ [Created c cv cfg]
           \<and> ctype cfg = t
           \<and> labels cfg = map fst (sentiment d)
           \<and> dataset_data cfg = map snd (sentiment d)
           \<and> (case scales_y cfg of
                 None \<Rightarrow> t \<noteq> Bar
               | Some y \<Rightarrow> t = Bar \<and> beginAtZero y \<and> axis_max y = 100
                           \<and> (\<forall>v. ticks_callback y v = v @ js ''%''))"
  using assms
  by (cases "chartInstance s")
     (simp_all add: renderChart_def selectChartType_def Let_def make_config_def bar_axis_def)

theorem chart_kind_and_axis_witness:
  "\<exists>s' c cfg.
      renderChart (selectChartType Bar scenario_shown) = Inr s'
      \<and> events s' = [Created c 0 cfg]
      \<and> ctype cfg = Bar
      \<and> labels cfg = [js ''positive'', js ''negative'']
      \<and> dataset_data cfg = [80, 20]
      \<and> scales_y cfg \<noteq> None"
proof -
  let ?r = "scenario_result\<lparr>insights := normalize_insights (insights scenario_result)\<rparr>"
  let ?d = "\<lparr>sentiment = [(js ''positive'', 80), (js ''negative'', 20 :: int)],
             insight = js ''Lasts long'',
             common_keywords = Keywords [js ''fast'', js ''day'', js ''Good'']\<rparr>"
  have res: "result scenario_shown = Some ?r"
    and cv: "canvas scenario_shown = Some 0"
    and sel: "selectedAspect scenario_shown = Some (js ''battery'')"
    and fresh: "chartInstance scenario_shown = None" "events scenario_shown = []"
    by (simp_all add: scenario_shown_eval init_def)
  have named: "js ''battery'' \<noteq> []"
    by (simp add: js_def)
  have look: "map_of (insights ?r) (js ''battery'') = Some ?d"
    by (simp add: scenario_battery)
  from chart_kind_and_axis [OF res cv sel named look, of Bar]
  obtain s' c cfg where
    "renderChart (selectChartType Bar scenario_shown) = Inr s'"
    "events s' = [Created c 0 cfg]" "ctype cfg = Bar"
    "labels cfg = [js ''positive'', js ''negative'']" "dataset_data cfg = [80, 20]"
    "scales_y cfg \<noteq> None"
    by (auto simp: fresh split: option.splits)
  then show ?thesis by blast
qed

lemma renderChart_draw:
  assumes "result s = Some r" and "canvas s = Some cv" and "selectedAspect s = Some a"
    and "a \<noteq> []" and "map_of (insights r) a = Some d"
  shows "renderChart s =
     Inr (s\<lparr>chartInstance := Some (nextChart s),
            events := events s @ (case chartInstance s of None \<Rightarrow> [] | Some c \<Rightarrow> [Destroyed c])
              @ [Created (nextChart s) cv
                   (make_config (selectedChartType s) a (map fst (sentiment d)) (map snd (sentiment d)))],
            nextChart := Suc (nextChart s)\<rparr>)"
  using assms by (cases "chartInstance s") (simp_all add: renderChart_def Let_def)

lemma settled:
  assumes "result s = Some r" and "canvas s = Some cv" and "selectedAspect s = Some a" and "a \<noteq> []"
  shows "bind_canvas (repair_effect s) = s"
  using assms by (simp add: bind_canvas_def repair_effect_def absent_def)

lemma scenario_shown_fields:
  "result scenario_shown = Some (scenario_result\<lparr>insights := normalize_insights (insights scenario_result)\<rparr>)"
  "canvas scenario_shown = Some 0"
  "selectedAspect scenario_shown = Some (js ''battery'')"
  "chartInstance scenario_shown = None"
  "events scenario_shown = []"
  "nextChart scenario_shown = 0"
  "selectedChartType scenario_shown = Pie"
  by (simp_all add: scenario_shown_eval init_def)

lemma battery_named: "js ''battery'' \<noteq> []"
  by (simp add: js_def)

lemma battery_lookup:
  "map_of (insights (scenario_result\<lparr>insights := normalize_insights (insights scenario_result)\<rparr>))
     (js ''battery'') =
   Some \<lparr>sentiment = [(js ''positive'', 80), (js ''negative'', 20)], insight = js ''Lasts long'',
         common_keywords = Keywords [js ''fast'', js ''day'', js ''Good'']\<rparr>"
  by (simp add: scenario_battery)

lemma scenario_first_render:
  "renderChart scenario_shown =
     Inr (scenario_shown\<lparr>chartInstance := Some 0, events := [Created 0 0 pie_config],
            nextChart := 1\<rparr>)"
  using renderChart_draw [OF scenario_shown_fields(1,2,3) battery_named battery_lookup]
  by (simp add: scenario_shown_fields pie_config_def)


lemma scenario_step_render:
  "step Render scenario_shown =
     scenario_shown\<lparr>chartInstance := Some 0, events := [Created 0 0 pie_config], nextChart := 1\<rparr>"
proof -
  let ?s1 = "scenario_shown\<lparr>chartInstance := Some 0, events := [Created 0 0 pie_config], nextChart := 1\<rparr>"
  have "act Render scenario_shown = ?s1"
    by (simp add: scenario_first_render)
  moreover have "bind_canvas (repair_effect ?s1) = ?s1"
    by (rule settled [where a = "js ''battery''"]) (simp_all add: scenario_shown_fields battery_named)
  ultimately show ?thesis by (simp add: step_def)
qed

lemma scenario_drawn_eval:
  "scenario_drawn =
     scenario_shown\<lparr>selectedChartType := Bar, chartInstance := Some 0,
        events := [Created 0 0 pie_config], nextChart := 1\<rparr>"
proof -
  let ?s1 = "scenario_shown\<lparr>chartInstance := Some 0, events := [Created 0 0 pie_config], nextChart := 1\<rparr>"
  let ?s2 = "scenario_shown\<lparr>selectedChartType := Bar, chartInstance := Some 0,
        events := [Created 0 0 pie_config], nextChart := 1\<rparr>"
  have "act (ChooseChartType Bar) ?s1 = ?s2"
    by (simp add: scenario_shown_fields selectChartType_def)
  moreover have "bind_canvas (repair_effect ?s2) = ?s2"
    by (rule settled [where a = "js ''battery''"]) (simp_all add: scenario_shown_fields battery_named)
  ultimately have "step (ChooseChartType Bar) ?s1 = ?s2"
    by (simp add: step_def)
  then show ?thesis
    by (simp add: scenario_drawn_def scenario_step_render)
qed

lemma scenario_drawn_fields:
  "result scenario_drawn = Some (scenario_result\<lparr>insights := normalize_insights (insights scenario_result)\<rparr>)"
  "canvas scenario_drawn = Some 0"
  "selectedAspect scenario_drawn = Some (js ''battery'')"
  "chartInstance scenario_drawn = Some 0"
  "events scenario_drawn = [Created 0 0 pie_config]"
  "nextChart scenario_drawn = 1"
  "selectedChartType scenario_drawn = Bar"
  by (simp_all add: scenario_drawn_eval scenario_shown_fields)

lemma scenario_second_render:
  "renderChart scenario_drawn =
     Inr (scenario_drawn\<lparr>chartInstance := Some 1,
            events := [Created 0 0 pie_config, Destroyed 0, Created 1 0 bar_config],
            nextChart := 2\<rparr>)"
  using renderChart_draw [OF scenario_drawn_fields(1,2,3) battery_named battery_lookup]
  by (simp add: scenario_drawn_fields bar_config_def)

lemma scenario_final:
  "events (run scenario_actions init) = [Created 0 0 pie_config, Destroyed 0, Created 1 0 bar_config]"
  "chartInstance (run scenario_actions init) = Some 1"
proof -
  have "run scenario_actions init = step Render scenario_drawn"
    by (simp add: scenario_actions_def scenario_drawn_def scenario_shown_def)
  then show
    "events (run scenario_actions init) = [Created 0 0 pie_config, Destroyed 0, Created 1 0 bar_config]"
    "chartInstance (run scenario_actions init) = Some 1"
    by (simp_all add: step_def chart_fields_effects scenario_second_render)
qed


text \<open>
  C3. When \<open>renderChart\<close> makes a chart while \<open>chartInstance\<close> holds one, the call
  destroys that chart and then makes the new one, the two calls being adjacent in the
  log. In every run of the page from its initial state the log creates a chart only when
  none is live and destroys only the live one, so a destroy stands between any two
  creates; and after every prefix of the log, also in the middle of a \<open>renderChart\<close>
  call, at most one chart is attached to a canvas.
\<close>

theorem dispose_before_recreate:
  "(\<forall>c s'. chartInstance s = Some c \<and> renderChart s = Inr s' \<and> events s' \<noteq> events s \<longrightarrow>
       (\<exists>c' cv cfg. events s' = events s @ [Destroyed c, Created c' cv cfg]
                    \<and> chartInstance s' = Some c'))
   \<and> lifecycle_ok None (events (run acts init))
   \<and> (\<forall>n. length (attached (take n (events (run acts init)))) \<le> 1)"
proof (intro conjI allI impI)
  fix c s'
  assume "chartInstance s = Some c \<and> renderChart s = Inr s' \<and> events s' \<noteq> events s"
  then show "\<exists>c' cv cfg. events s' = events s @ [Destroyed c, Created c' cv cfg]
      \<and> chartInstance s' = Some c'"
    using renderChart_Inr [of s s'] by auto
next
  show "lifecycle_ok None (events (run acts init))"
    using chart_inv_run [OF chart_inv_init, of acts] by (simp add: chart_inv_def)
next
  fix n
  have "lifecycle_ok None (events (run acts init))"
    using chart_inv_run [OF chart_inv_init, of acts] by (simp add: chart_inv_def)
  then show "length (attached (take n (events (run acts init)))) \<le> 1"
    unfolding attached_def by (rule attached_bound) simp
qed

theorem dispose_before_recreate_witness:
  "chartInstance scenario_drawn = Some 0
   \<and> (\<exists>s' c' cv cfg. renderChart scenario_drawn = Inr s'
         \<and> events s' = events scenario_drawn @ [Destroyed 0, Created c' cv cfg])
   \<and> length (events (run scenario_actions init)) = 3
   \<and> lifecycle_ok None (events (run scenario_actions init))
   \<and> attached (take 1 (events (run scenario_actions init))) = [(0, 0)]
   \<and> length (attached (take 2 (events (run scenario_actions init)))) \<le> 1
   \<and> attached (take 3 (events (run scenario_actions init))) = [(1, 0)]"
proof -
  let ?s' = "scenario_drawn\<lparr>chartInstance := Some 1,
      events := [Created 0 0 pie_config, Destroyed 0, Created 1 0 bar_config], nextChart := 2\<rparr>"
  note general = dispose_before_recreate [of scenario_drawn scenario_actions]
  have live: "chartInstance scenario_drawn = Some 0"
    by (simp add: scenario_drawn_fields)
  have changed: "events ?s' \<noteq> events scenario_drawn"
    by (simp add: scenario_drawn_fields)
  from general have "chartInstance scenario_drawn = Some 0 \<and> renderChart scenario_drawn = Inr ?s'
      \<and> events ?s' \<noteq> events scenario_drawn \<longrightarrow>
      (\<exists>c' cv cfg. events ?s' = events scenario_drawn @ [Destroyed 0, Created c' cv cfg]
         \<and> chartInstance ?s' = Some c')"
    by blast
  with live changed scenario_second_render
  have call: "\<exists>s' c' cv cfg. renderChart scenario_drawn = Inr s'
      \<and> events s' = events scenario_drawn @ [Destroyed 0, Created c' cv cfg]"
    by blast
  have shape: "attached (take 1 (events (run scenario_actions init))) = [(0, 0)]"
    "attached (take 3 (events (run scenario_actions init))) = [(1, 0)]"
    "length (events (run scenario_actions init)) = 3"
    by (simp_all add: scenario_final attached_def)
  from general have "lifecycle_ok None (events (run scenario_actions init))"
    and "length (attached (take 2 (events (run scenario_actions init)))) \<le> 1"
    by blast+
  with live call shape show ?thesis
    by simp
qed

text \<open>
  C9, as the code has it. In every run of the page each destroy is followed at once by
  the create of the replacing chart, so a chart is destroyed only when it is replaced.
  Tearing the view down makes no chart call: the chart that \<open>chartInstance\<close> holds, if
  any, is still attached afterwards.
\<close>

theorem chart_destroyed_only_on_replacement:
  "replaced_at_once (events (run acts init))
   \<and> events (teardown (run acts init)) = events (run acts init)
   \<and> map fst (attached (events (teardown (run acts init))))
       = (case chartInstance (run acts init) of None \<Rightarrow> [] | Some c \<Rightarrow> [c])"
proof -
  have inv: "chart_inv (run acts init)"
    by (rule chart_inv_run [OF chart_inv_init])
  then have "map fst (attached (events (run acts init)))
      = (case chartInstance (run acts init) of None \<Rightarrow> [] | Some c \<Rightarrow> [c])"
    using attached_live [of None "events (run acts init)" "[]"]
    by (simp add: chart_inv_def attached_def)
  with inv show ?thesis
    by (simp add: chart_inv_def teardown_def)
qed

theorem chart_destroyed_only_on_replacement_witness:
  "replaced_at_once (events (run scenario_actions init))
   \<and> events (teardown (run scenario_actions init)) = events (run scenario_actions init)
   \<and> map fst (attached (events (teardown (run scenario_actions init)))) = [1]"
proof -
  note general = chart_destroyed_only_on_replacement [of scenario_actions]
  from general have "replaced_at_once (events (run scenario_actions init))"
    by (rule conjunct1)
  moreover from general
  have "events (teardown (run scenario_actions init)) = events (run scenario_actions init)"
    by (rule conjunct2 [THEN conjunct1])
  moreover from general
  have "map fst (attached (events (teardown (run scenario_actions init))))
      = (case chartInstance (run scenario_actions init) of None \<Rightarrow> [] | Some c \<Rightarrow> [c])"
    by (rule conjunct2 [THEN conjunct2])
  then have "map fst (attached (events (teardown (run scenario_actions init)))) = [1]"
    by (simp only: scenario_final(2) option.case)
  ultimately show ?thesis by (intro conjI)
qed

text \<open>
  A chart does survive view teardown: in scenario 4 the bar chart is live when the view
  is torn down and stays attached.
\<close>

theorem chart_survives_teardown:
  "chartInstance (run scenario_actions init) = Some 1
   \<and> attached (events (teardown (run scenario_actions init))) = [(1, 0)]"
  by (simp add: scenario_final teardown_def attached_def)



end
